theory Spec2Isabelle
  imports Main
begin

section \<open>tokman: a cache of GitHub installation access tokens\<close>

text \<open>
  A shallow embedding of \<^verbatim>\<open>src/tokman/app.py\<close>: the \<^verbatim>\<open>Token\<close> model with its
  \<^verbatim>\<open>is_expired\<close> method, \<^verbatim>\<open>get_token\<close>, and the request handler
  \<^verbatim>\<open>AccessToken.get\<close>. The database table, the clock and the GitHub integration are
  explicit arguments; exceptions are values of a sum type.
\<close>

subsection \<open>Time: \<^verbatim>\<open>datetime\<close> and \<^verbatim>\<open>timedelta\<close>\<close>

text \<open>
  A naive UTC \<^verbatim>\<open>datetime\<close> is the number of microseconds since a fixed origin.
  Subtracting two of them gives a Python \<^verbatim>\<open>timedelta\<close>, which is kept normalised:
  \<^verbatim>\<open>0 <= microseconds < 1000000\<close>, \<^verbatim>\<open>0 <= seconds < 86400\<close>, and \<^verbatim>\<open>days\<close> carries the rest
  (and the sign). The attribute \<^verbatim>\<open>.seconds\<close> is that middle component, not the total
  number of seconds.
\<close>

type_synonym datetime = int

record timedelta =
  days :: int
  seconds :: int
  microseconds :: int

definition timedelta_of_microseconds :: "int \<Rightarrow> timedelta" where
  "timedelta_of_microseconds us =
     \<lparr>days = us div 86400000000,
      seconds = (us div 1000000) mod 86400,
      microseconds = us mod 1000000\<rparr>"

definition datetime_sub :: "datetime \<Rightarrow> datetime \<Rightarrow> timedelta" where
  "datetime_sub a b = timedelta_of_microseconds (a - b)"

definition total_seconds_floor :: "datetime \<Rightarrow> datetime \<Rightarrow> int" where
  \<comment> \<open>the whole remaining lifetime in seconds, rounded down; not used by the code\<close>
  "total_seconds_floor a b = (a - b) div 1000000"

definition at_seconds :: "datetime \<Rightarrow> int \<Rightarrow> datetime" where
  \<comment> \<open>the instant \<open>n\<close> seconds after \<open>t\<close>\<close>
  "at_seconds t n = t + n * 1000000"

subsection \<open>The \<^verbatim>\<open>tokens\<close> table\<close>

text \<open>
  One row of the model class \<^verbatim>\<open>Token\<close>. The column \<^verbatim>\<open>id\<close> is \<open>row_id\<close> here; it is
  \<open>None\<close> on an object that has not been flushed to the database yet. The method
  \<^verbatim>\<open>is_expired\<close> reads the clock and the global \<^verbatim>\<open>token_renew_at\<close>; both are arguments.
\<close>

record Token =
  row_id :: "nat option"
  namespace :: string
  repository :: string
  token :: "string option"
  expires_at :: "datetime option"

type_synonym db = "Token list"

fun is_expired :: "Token \<Rightarrow> datetime \<Rightarrow> int \<Rightarrow> bool" where
  "is_expired self utcnow token_renew_at =
     (case expires_at self of
        None \<Rightarrow> True
      | Some e \<Rightarrow>
          (case token self of
             None \<Rightarrow> True
           | Some t \<Rightarrow> seconds (datetime_sub e utcnow) < token_renew_at))"

subsection \<open>Exceptions and the GitHub integration\<close>

text \<open>
  \<open>GithubException\<close> stands for whatever the GitHub client library raises (network,
  authentication); \<open>AppNotInstalledError\<close> is raised by this module only.
\<close>

datatype github_exception = GithubException string

datatype error =
    AppNotInstalledError string
  | LibraryError github_exception
  | IntegrityError

text \<open>
  \<^verbatim>\<open>get_installation(namespace, repository).id\<close> is an int, \<open>None\<close>, or an attribute
  object whose \<^verbatim>\<open>.value\<close> holds the id. \<^verbatim>\<open>get_access_token\<close> answers with a token
  string and its expiry, as the client library types them. Each call of the integration
  made by a request is recorded.
\<close>

datatype installation_id =
    Plain "int option"
  | Valued "int option"

record github_integration =
  get_installation :: "string \<Rightarrow> string \<Rightarrow> github_exception + installation_id"
  get_access_token :: "int \<Rightarrow> github_exception + (string \<times> datetime)"

datatype call =
    GetInstallation string string
  | GetAccessToken int

fun id_value :: "installation_id \<Rightarrow> int option" where
  "id_value (Plain v) = v"
| "id_value (Valued v) = v"

fun falsy :: "int option \<Rightarrow> bool" where
  \<comment> \<open>\<^verbatim>\<open>not inst_id\<close>: \<open>None\<close> and \<open>0\<close> are false in Python\<close>
  "falsy None = True"
| "falsy (Some i) = (i = 0)"

definition not_installed_message :: "string \<Rightarrow> string \<Rightarrow> string" where
  "not_installed_message ns repo = ''App is not installed on '' @ ns @ ''/'' @ repo"

definition get_token ::
  "github_integration \<Rightarrow> string \<Rightarrow> string \<Rightarrow> (error + (string \<times> datetime)) \<times> call list" where
  "get_token gh ns repo =
     (case get_installation gh ns repo of
        Inl e \<Rightarrow> (Inl (LibraryError e), [GetInstallation ns repo])
      | Inr raw \<Rightarrow>
          (case id_value raw of
             None \<Rightarrow>
               (Inl (AppNotInstalledError (not_installed_message ns repo)),
                [GetInstallation ns repo])
           | Some inst_id \<Rightarrow>
               if inst_id = 0
               then (Inl (AppNotInstalledError (not_installed_message ns repo)),
                     [GetInstallation ns repo])
               else (case get_access_token gh inst_id of
                       Inl e \<Rightarrow> Inl (LibraryError e)
                     | Inr inst_auth \<Rightarrow> Inr inst_auth,
                     [GetInstallation ns repo, GetAccessToken inst_id])))"

definition not_installed :: "github_integration \<Rightarrow> string \<Rightarrow> string \<Rightarrow> bool" where
  \<comment> \<open>the installation lookup answers, and its id is \<open>None\<close> or \<open>0\<close>\<close>
  "not_installed gh ns repo =
     (case get_installation gh ns repo of
        Inl e \<Rightarrow> False
      | Inr raw \<Rightarrow> falsy (id_value raw))"

subsection \<open>The database session\<close>

text \<open>
  The columns \<^verbatim>\<open>namespace\<close>, \<^verbatim>\<open>repository\<close> and \<^verbatim>\<open>token\<close> are each declared
  \<^verbatim>\<open>unique=True\<close>, and \<^verbatim>\<open>id\<close> is the primary key. The database rejects an
  \<^verbatim>\<open>INSERT\<close> or \<^verbatim>\<open>UPDATE\<close> that would repeat a value of such a column in another row
  (\<open>NULL\<close> tokens do not collide), which surfaces as an \<open>IntegrityError\<close> at
  \<^verbatim>\<open>db.session.commit()\<close>; nothing of the session is stored then. The session lives
  for one request: what the handler did not commit, because it returned early or an
  exception escaped, is discarded with it. A new row gets the next free \<^verbatim>\<open>id\<close>.
\<close>

definition filter_by_first :: "db \<Rightarrow> string \<Rightarrow> string \<Rightarrow> Token option" where
  "filter_by_first rows ns repo =
     find (\<lambda>r. namespace r = ns \<and> repository r = repo) rows"

definition next_id :: "db \<Rightarrow> nat" where
  "next_id rows = Suc (fold max (List.map_filter row_id rows) 0)"

definition insert_conflict :: "db \<Rightarrow> Token \<Rightarrow> bool" where
  "insert_conflict rows new =
     list_ex (\<lambda>r. namespace r = namespace new
                \<or> repository r = repository new
                \<or> (token r \<noteq> None \<and> token r = token new)) rows"

definition insert_row :: "db \<Rightarrow> Token \<Rightarrow> error + db" where
  "insert_row rows new =
     (if insert_conflict rows new then Inl IntegrityError
      else Inr (rows @ [new\<lparr>row_id := Some (next_id rows)\<rparr>]))"

definition update_conflict :: "db \<Rightarrow> nat option \<Rightarrow> Token \<Rightarrow> bool" where
  "update_conflict rows key obj =
     list_ex (\<lambda>r. row_id r \<noteq> key \<and> token r \<noteq> None \<and> token r = token obj) rows"

definition set_token :: "nat option \<Rightarrow> Token \<Rightarrow> Token \<Rightarrow> Token" where
  "set_token key obj r =
     (if row_id r = key then r\<lparr>token := token obj, expires_at := expires_at obj\<rparr> else r)"

definition update_row :: "db \<Rightarrow> nat option \<Rightarrow> Token \<Rightarrow> error + db" where
  \<comment> \<open>\<^verbatim>\<open>UPDATE tokens SET token=?, expires_at=? WHERE id=?\<close>\<close>
  "update_row rows key obj =
     (if update_conflict rows key obj then Inl IntegrityError
      else Inr (map (set_token key obj) rows))"

definition commit :: "db \<Rightarrow> Token option \<Rightarrow> Token \<Rightarrow> error + db" where
  \<comment> \<open>\<open>loaded\<close> is the row the query returned (\<open>None\<close>: the object is new and pending);
      \<open>obj\<close> is the object as the handler left it. An unchanged object is not written.\<close>
  "commit rows loaded obj =
     (case loaded of
        None \<Rightarrow> insert_row rows obj
      | Some old \<Rightarrow>
          if obj = old then Inr rows else update_row rows (row_id old) obj)"

subsection \<open>The handler \<^verbatim>\<open>AccessToken.get\<close>\<close>

record config =
  github_integration :: github_integration
  token_renew_at :: int

text \<open>
  A JSON body is the dict in insertion order; \<open>None\<close> is JSON \<^verbatim>\<open>null\<close>. A dict returned
  without a status is answered with 200.
\<close>

record response =
  body :: "(string \<times> string option) list"
  status :: nat

text \<open>
  What one request leaves behind: the response (or the exception that escaped the
  handler), the committed table, and the calls made to the GitHub integration.
\<close>

record result =
  outcome :: "error + response"
  db_after :: db
  issuer_calls :: "call list"

definition get_or_create :: "db \<Rightarrow> string \<Rightarrow> string \<Rightarrow> Token" where
  \<comment> \<open>lines 82 to 88: the row of the key, or a new object added to the session\<close>
  "get_or_create rows ns repo =
     (case filter_by_first rows ns repo of
        None \<Rightarrow> \<lparr>row_id = None, namespace = ns, repository = repo,
                 token = None, expires_at = None\<rparr>
      | Some t \<Rightarrow> t)"

definition success_body :: "string \<Rightarrow> string \<Rightarrow> Token \<Rightarrow> (string \<times> string option) list" where
  "success_body ns repo obj =
     [(''repository'', Some repo), (''namespace'', Some ns), (''access_token'', token obj)]"

definition error_body :: "string \<Rightarrow> (string \<times> string option) list" where
  "error_body err = [(''error'', Some (''Failed to retrieve a token: '' @ err))]"

definition commit_and_return ::
  "db \<Rightarrow> Token option \<Rightarrow> Token \<Rightarrow> string \<Rightarrow> string \<Rightarrow> call list \<Rightarrow> result" where
  \<comment> \<open>lines 98 to 105\<close>
  "commit_and_return rows loaded obj ns repo calls =
     (case commit rows loaded obj of
        Inl e \<Rightarrow> \<lparr>outcome = Inl e, db_after = rows, issuer_calls = calls\<rparr>
      | Inr rows' \<Rightarrow>
          \<lparr>outcome = Inr \<lparr>body = success_body ns repo obj, status = 200\<rparr>,
           db_after = rows', issuer_calls = calls\<rparr>)"

definition get :: "config \<Rightarrow> db \<Rightarrow> datetime \<Rightarrow> string \<Rightarrow> string \<Rightarrow> result" where
  "get cfg rows utcnow ns repo =
     (let loaded = filter_by_first rows ns repo;
          obj = get_or_create rows ns repo
      in if is_expired obj utcnow (token_renew_at cfg) then
           (case get_token (github_integration cfg) ns repo of
              (Inl (AppNotInstalledError err), calls) \<Rightarrow>
                \<lparr>outcome = Inr \<lparr>body = error_body err, status = 400\<rparr>,
                 db_after = rows, issuer_calls = calls\<rparr>
            | (Inl e, calls) \<Rightarrow>
                \<lparr>outcome = Inl e, db_after = rows, issuer_calls = calls\<rparr>
            | (Inr (t, e), calls) \<Rightarrow>
                commit_and_return rows loaded
                  (obj\<lparr>token := Some t, expires_at := Some e\<rparr>) ns repo calls)
         else commit_and_return rows loaded obj ns repo [])"

subsection \<open>A run of requests\<close>

record request =
  req_config :: config
  req_utcnow :: datetime
  req_namespace :: string
  req_repository :: string

definition serve1 :: "db \<Rightarrow> request \<Rightarrow> db" where
  "serve1 rows q =
     db_after (get (req_config q) rows (req_utcnow q) (req_namespace q) (req_repository q))"

fun serve :: "db \<Rightarrow> request list \<Rightarrow> db" where
  "serve rows [] = rows"
| "serve rows (q # qs) = serve (serve1 rows q) qs"

subsection \<open>Properties of the table\<close>

definition pk_ok :: "db \<Rightarrow> bool" where
  \<comment> \<open>\<^verbatim>\<open>id\<close> is a primary key: never \<open>NULL\<close>, never repeated\<close>
  "pk_ok rows = (list_all (\<lambda>r. row_id r \<noteq> None) rows \<and> distinct (map row_id rows))"

definition schema_ok :: "db \<Rightarrow> bool" where
  \<comment> \<open>the primary key and the three \<^verbatim>\<open>unique=True\<close> columns\<close>
  "schema_ok rows =
     (pk_ok rows
      \<and> distinct (map namespace rows)
      \<and> distinct (map repository rows)
      \<and> distinct (List.map_filter token rows))"

definition rows_of :: "db \<Rightarrow> string \<Rightarrow> string \<Rightarrow> Token list" where
  "rows_of rows ns repo = filter (\<lambda>r. namespace r = ns \<and> repository r = repo) rows"

definition pair_unique :: "db \<Rightarrow> bool" where
  \<comment> \<open>no two rows carry the same (namespace, repository)\<close>
  "pair_unique rows = distinct (map (\<lambda>r. (namespace r, repository r)) rows)"

definition token_with_expiry :: "db \<Rightarrow> bool" where
  \<comment> \<open>in every row, token and expiry are both present or both absent\<close>
  "token_with_expiry rows = list_all (\<lambda>r. (token r = None) = (expires_at r = None)) rows"

subsection \<open>Fixtures\<close>

definition installed_issuer :: "string \<Rightarrow> datetime \<Rightarrow> github_integration" where
  \<comment> \<open>installed everywhere as installation 1; every token is \<open>tok\<close>, expiring at \<open>exp\<close>\<close>
  "installed_issuer tok exp =
     \<lparr>get_installation = (\<lambda>ns repo. Inr (Plain (Some 1))),
      get_access_token = (\<lambda>i. Inr (tok, exp))\<rparr>"

definition uninstalled_issuer :: github_integration where
  \<comment> \<open>installed nowhere: the installation has no id\<close>
  "uninstalled_issuer =
     \<lparr>get_installation = (\<lambda>ns repo. Inr (Plain None)),
      get_access_token = (\<lambda>i. Inl (GithubException ''no such installation''))\<rparr>"

definition scenario_config :: "datetime \<Rightarrow> config" where
  \<comment> \<open>the issuer answers \<^verbatim>\<open>"abc"\<close> expiring an hour after \<open>T\<close>; the threshold is 60\<close>
  "scenario_config T =
     \<lparr>github_integration = installed_issuer ''abc'' (at_seconds T 3600),
      token_renew_at = 60\<rparr>"

definition uninstalled_config :: config where
  "uninstalled_config = \<lparr>github_integration = uninstalled_issuer, token_renew_at = 60\<rparr>"

definition scenario_row :: "datetime \<Rightarrow> Token" where
  \<comment> \<open>the row that the scenario's first request stores\<close>
  "scenario_row T =
     \<lparr>row_id = Some 1, namespace = ''org'', repository = ''repo'',
      token = Some ''abc'', expires_at = Some (at_seconds T 3600)\<rparr>"

definition scenario_request :: "datetime \<Rightarrow> request" where
  "scenario_request T =
     \<lparr>req_config = scenario_config T, req_utcnow = T,
      req_namespace = ''org'', req_repository = ''repo''\<rparr>"

section \<open>Auxiliary facts\<close>

subsection \<open>Time and the table\<close>

lemma seconds_within_day:
  assumes "0 \<le> e - now" "e - now < 86400000000"
  shows "seconds (datetime_sub e now) = total_seconds_floor e now"
proof -
  have "0 \<le> (e - now) div 1000000" using assms(1) by simp
  moreover have "(e - now) div 1000000 < 86400" using assms(2) by simp
  ultimately show ?thesis
    by (simp add: datetime_sub_def timedelta_of_microseconds_def total_seconds_floor_def)
qed

lemma is_expired_within_day:
  assumes "token r = Some t" "expires_at r = Some e" "0 \<le> e - now" "e - now < 86400000000"
  shows "is_expired r now thr = (e - now < thr * 1000000)"
proof -
  have "((e - now) div 1000000 < thr) = (e - now < thr * 1000000)"
    by arith
  then show ?thesis using assms seconds_within_day [OF assms(3,4)]
    by (simp add: total_seconds_floor_def)
qed

lemma fold_max_ge: "a \<le> fold max xs (a::nat)"
  by (induction xs arbitrary: a) (auto intro: order_trans [OF max.cobounded2])

lemma fold_max_mem: "x \<in> set xs \<Longrightarrow> x \<le> fold max xs (a::nat)"
proof (induction xs arbitrary: a)
  case Nil then show ?case by simp
next
  case (Cons y ys)
  show ?case
  proof (cases "x = y")
    case True
    have "y \<le> max y a" by simp
    also have "\<dots> \<le> fold max ys (max y a)" by (rule fold_max_ge)
    finally show ?thesis using True by simp
  next
    case False
    with Cons show ?thesis by simp
  qed
qed

lemma in_map_filter: "y \<in> set (List.map_filter f xs) \<longleftrightarrow> (\<exists>x\<in>set xs. f x = Some y)"
  by (induction xs) (auto split: option.splits)

lemma next_id_fresh: "Some (next_id rows) \<notin> set (map row_id rows)"
proof
  assume "Some (next_id rows) \<in> set (map row_id rows)"
  then have "next_id rows \<in> set (List.map_filter row_id rows)"
    by (force simp: in_map_filter)
  then have "next_id rows \<le> fold max (List.map_filter row_id rows) 0"
    by (rule fold_max_mem)
  then show False by (simp add: next_id_def)
qed

lemma find_pair_None:
  "filter_by_first rows ns repo = None \<longleftrightarrow>
     (\<forall>r\<in>set rows. \<not> (namespace r = ns \<and> repository r = repo))"
  by (auto simp: filter_by_first_def find_None_iff)

lemma find_pair_Some:
  "filter_by_first rows ns repo = Some r \<Longrightarrow> r \<in> set rows \<and> namespace r = ns \<and> repository r = repo"
  by (auto simp: filter_by_first_def find_Some_iff)

lemma insert_row_schema:
  assumes "schema_ok rows" "insert_row rows new = Inr rows'"
  shows "schema_ok rows'"
proof -
  from assms(2) have nc: "\<not> insert_conflict rows new"
    and eq: "rows' = rows @ [new\<lparr>row_id := Some (next_id rows)\<rparr>]"
    by (auto simp: insert_row_def split: if_splits)
  from nc have ns: "namespace new \<notin> set (map namespace rows)"
    and rp: "repository new \<notin> set (map repository rows)"
    and tk: "\<And>t. token new = Some t \<Longrightarrow> t \<notin> set (List.map_filter token rows)"
    by (auto simp: insert_conflict_def list_ex_iff in_map_filter)
  have fresh: "Some (next_id rows) \<notin> set (map row_id rows)" by (rule next_id_fresh)
  have mf: "List.map_filter token (rows @ [x]) = List.map_filter token rows @ (case token x of None \<Rightarrow> [] | Some t \<Rightarrow> [t])" for x
    by (induction rows) (auto split: option.splits)
  show ?thesis
    using assms(1) ns rp tk fresh unfolding eq schema_ok_def pk_ok_def
    by (auto simp: mf split: option.splits)
qed

lemma set_token_fields [simp]:
  "row_id (set_token key obj r) = row_id r"
  "namespace (set_token key obj r) = namespace r"
  "repository (set_token key obj r) = repository r"
  by (simp_all add: set_token_def)

lemma set_token_other: "\<forall>r\<in>set rows. row_id r \<noteq> key \<Longrightarrow> map (set_token key obj) rows = rows"
  by (induction rows) (auto simp: set_token_def)

lemma update_tokens_distinct:
  assumes "distinct (map row_id rows)" "distinct (List.map_filter token rows)"
    and "\<forall>r\<in>set rows. row_id r \<noteq> key \<longrightarrow> token r \<noteq> None \<longrightarrow> token r \<noteq> token obj"
  shows "distinct (List.map_filter token (map (set_token key obj) rows))"
  using assms
proof (induction rows)
  case Nil
  then show ?case by simp
next
  case (Cons x xs)
  then have IH: "distinct (List.map_filter token (map (set_token key obj) xs))"
    by (auto split: option.splits)
  show ?case
  proof (cases "row_id x = key")
    case True
    with Cons.prems(1) have other: "\<forall>r\<in>set xs. row_id r \<noteq> key"
      by (auto simp: image_iff)
    then have same: "map (set_token key obj) xs = xs" by (rule set_token_other)
    have "\<And>t. token obj = Some t \<Longrightarrow> t \<notin> set (List.map_filter token xs)"
      using other Cons.prems(3) by (auto simp: in_map_filter)
    moreover have "token (set_token key obj x) = token obj"
      using True by (simp add: set_token_def)
    ultimately show ?thesis using Cons.prems(2) same
      by (auto split: option.splits)
  next
    case False
    then have keep: "set_token key obj x = x" by (simp add: set_token_def)
    have "\<And>s. token x = Some s \<Longrightarrow> s \<notin> set (List.map_filter token (map (set_token key obj) xs))"
    proof
      fix s assume tx: "token x = Some s"
        and "s \<in> set (List.map_filter token (map (set_token key obj) xs))"
      then obtain r where r: "r \<in> set xs" "token (set_token key obj r) = Some s"
        by (auto simp: in_map_filter)
      show False
      proof (cases "row_id r = key")
        case True
        with r(2) have "token obj = Some s" by (simp add: set_token_def)
        with Cons.prems(3) False tx show False by auto
      next
        case False
        with r(2) have "token r = Some s" by (simp add: set_token_def)
        with r(1) have "s \<in> set (List.map_filter token xs)" by (auto simp: in_map_filter)
        with Cons.prems(2) tx show False by simp
      qed
    qed
    then show ?thesis using IH keep by (auto split: option.splits)
  qed
qed

lemma update_row_eq:
  "update_row rows key obj = Inr rows' \<Longrightarrow>
     rows' = map (set_token key obj) rows \<and> \<not> update_conflict rows key obj"
  by (auto simp: update_row_def set_token_def split: if_splits)

lemma update_row_schema:
  assumes "schema_ok rows" "update_row rows key obj = Inr rows'"
  shows "schema_ok rows'"
proof -
  from update_row_eq [OF assms(2)]
  have eq: "rows' = map (set_token key obj) rows" and nc: "\<not> update_conflict rows key obj"
    by simp_all
  from nc have free: "\<forall>r\<in>set rows. row_id r \<noteq> key \<longrightarrow> token r \<noteq> None \<longrightarrow> token r \<noteq> token obj"
    by (auto simp: update_conflict_def list_ex_iff)
  have ids: "map row_id rows' = map row_id rows"
    and nss: "map namespace rows' = map namespace rows"
    and rps: "map repository rows' = map repository rows"
    unfolding eq by simp_all
  have nn: "list_all (\<lambda>r. row_id r \<noteq> None) rows'"
    using assms(1) unfolding eq by (simp add: schema_ok_def pk_ok_def list_all_iff)
  have "distinct (List.map_filter token rows')"
    unfolding eq using assms(1) free
    by (intro update_tokens_distinct) (simp_all add: schema_ok_def pk_ok_def)
  with assms(1) ids nss rps nn show ?thesis
    by (simp add: schema_ok_def pk_ok_def)
qed

subsection \<open>The handler, path by path\<close>


lemma get_or_create_new:
  "filter_by_first rows ns repo = None \<Longrightarrow>
     get_or_create rows ns repo =
       \<lparr>row_id = None, namespace = ns, repository = repo, token = None, expires_at = None\<rparr>"
  by (simp add: get_or_create_def)

lemma get_or_create_loaded:
  "filter_by_first rows ns repo = Some r \<Longrightarrow> get_or_create rows ns repo = r"
  by (simp add: get_or_create_def)

lemma get_or_create_key:
  "namespace (get_or_create rows ns repo) = ns \<and> repository (get_or_create rows ns repo) = repo"
  by (cases "filter_by_first rows ns repo")
     (auto simp: get_or_create_def dest: find_pair_Some)

lemma fresh_object_expired:
  "filter_by_first rows ns repo = None \<Longrightarrow> is_expired (get_or_create rows ns repo) now thr"
  by (simp add: get_or_create_new)

lemma not_expired_loaded:
  assumes "\<not> is_expired (get_or_create rows ns repo) now thr"
  shows "filter_by_first rows ns repo = Some (get_or_create rows ns repo)"
proof (cases "filter_by_first rows ns repo")
  case None
  with assms fresh_object_expired show ?thesis by blast
next
  case (Some r)
  then show ?thesis by (simp add: get_or_create_loaded)
qed

lemma not_expired_token:
  "\<not> is_expired obj now thr \<Longrightarrow> \<exists>t. token obj = Some t"
  by (auto split: option.splits)

lemma commit_unchanged: "commit rows (Some obj) obj = Inr rows"
  by (simp add: commit_def)

lemma get_not_expired:
  assumes "\<not> is_expired (get_or_create rows ns repo) now (token_renew_at cfg)"
  shows "get cfg rows now ns repo =
           \<lparr>outcome = Inr \<lparr>body = success_body ns repo (get_or_create rows ns repo), status = 200\<rparr>,
            db_after = rows, issuer_calls = []\<rparr>"
  using assms not_expired_loaded [OF assms]
  by (simp add: get_def commit_and_return_def commit_unchanged del: is_expired.simps)

lemma get_token_not_installed:
  "not_installed gh ns repo \<Longrightarrow>
     get_token gh ns repo =
       (Inl (AppNotInstalledError (not_installed_message ns repo)), [GetInstallation ns repo])"
  by (auto simp: not_installed_def get_token_def split: sum.splits option.splits)

lemma get_token_raises:
  "get_token gh ns repo = (Inl (AppNotInstalledError err), calls) \<Longrightarrow>
     err = not_installed_message ns repo \<and> calls = [GetInstallation ns repo]
     \<and> not_installed gh ns repo"
  by (auto simp: get_token_def not_installed_def split: sum.splits option.splits if_splits)

lemma get_expired_not_installed:
  assumes "is_expired (get_or_create rows ns repo) now (token_renew_at cfg)"
    and "not_installed (github_integration cfg) ns repo"
  shows "get cfg rows now ns repo =
           \<lparr>outcome = Inr \<lparr>body = error_body (not_installed_message ns repo), status = 400\<rparr>,
            db_after = rows, issuer_calls = [GetInstallation ns repo]\<rparr>"
  using assms(1) get_token_not_installed [OF assms(2)]
  by (simp add: get_def del: is_expired.simps)

lemma get_expired_issued:
  assumes "is_expired (get_or_create rows ns repo) now (token_renew_at cfg)"
    and "get_token (github_integration cfg) ns repo = (Inr (t, e), calls)"
  shows "get cfg rows now ns repo =
           commit_and_return rows (filter_by_first rows ns repo)
             ((get_or_create rows ns repo)\<lparr>token := Some t, expires_at := Some e\<rparr>) ns repo calls"
  using assms by (simp add: get_def del: is_expired.simps)

lemma db_after_cases:
  "db_after (get cfg rows now ns repo) = rows \<or>
   (\<exists>t e. commit rows (filter_by_first rows ns repo)
            ((get_or_create rows ns repo)\<lparr>token := Some t, expires_at := Some e\<rparr>)
          = Inr (db_after (get cfg rows now ns repo)))"
proof (cases "is_expired (get_or_create rows ns repo) now (token_renew_at cfg)")
  case False
  then show ?thesis by (simp add: get_not_expired del: is_expired.simps)
next
  case True
  obtain res calls where gt: "get_token (github_integration cfg) ns repo = (res, calls)"
    by (cases "get_token (github_integration cfg) ns repo")
  show ?thesis
  proof (cases res)
    case (Inl err)
    with True gt show ?thesis
      by (cases err) (simp_all add: get_def del: is_expired.simps)
  next
    case (Inr te)
    obtain t e where "te = (t, e)" by (cases te)
    with Inr gt have "get_token (github_integration cfg) ns repo = (Inr (t, e), calls)" by simp
    from get_expired_issued [OF True this] show ?thesis
      by (auto simp: commit_and_return_def split: sum.splits)
  qed
qed

subsection \<open>What a commit and a request keep\<close>


lemma commit_schema:
  assumes "schema_ok rows" "commit rows loaded obj = Inr rows'"
  shows "schema_ok rows'"
  using assms
  by (auto simp: commit_def split: option.splits if_splits
           intro: insert_row_schema update_row_schema)

lemma insert_row_eq:
  "insert_row rows new = Inr rows' \<Longrightarrow>
     rows' = rows @ [new\<lparr>row_id := Some (next_id rows)\<rparr>] \<and> \<not> insert_conflict rows new"
  by (auto simp: insert_row_def split: if_splits)

lemma commit_token_with_expiry:
  assumes "token_with_expiry rows" "(token obj = None) = (expires_at obj = None)"
    and "commit rows loaded obj = Inr rows'"
  shows "token_with_expiry rows'"
proof -
  have ins: "token_with_expiry r'" if "insert_row rows obj = Inr r'" for r'
    using insert_row_eq [OF that] assms(1,2) by (simp add: token_with_expiry_def)
  have upd: "token_with_expiry r'" if "update_row rows key obj = Inr r'" for r' key
    using update_row_eq [OF that] assms(1,2)
    by (auto simp: token_with_expiry_def list_all_iff set_token_def)
  from assms(3) ins upd assms(1) show ?thesis
    by (auto simp: commit_def split: option.splits if_splits)
qed

lemma commit_pair_unique:
  assumes "pair_unique rows" "loaded = filter_by_first rows (namespace obj) (repository obj)"
    and "commit rows loaded obj = Inr rows'"
  shows "pair_unique rows'"
proof -
  have ins: "pair_unique r'"
    if "insert_row rows obj = Inr r'" "filter_by_first rows (namespace obj) (repository obj) = None" for r'
    using insert_row_eq [OF that(1)] that(2) assms(1)
    by (auto simp: pair_unique_def find_pair_None)
  have upd: "pair_unique r'" if "update_row rows key obj = Inr r'" for r' key
  proof -
    have "map (\<lambda>r. (namespace r, repository r)) (map (set_token key obj) rows)
            = map (\<lambda>r. (namespace r, repository r)) rows"
      by simp
    with update_row_eq [OF that] assms(1) show ?thesis
      unfolding pair_unique_def by metis
  qed
  from assms(2,3) ins upd assms(1) show ?thesis
    by (auto simp: commit_def split: option.splits if_splits)
qed

lemma get_schema: "schema_ok rows \<Longrightarrow> schema_ok (db_after (get cfg rows now ns repo))"
  using db_after_cases [of cfg rows now ns repo] by (auto intro: commit_schema)

lemma get_token_with_expiry:
  "token_with_expiry rows \<Longrightarrow> token_with_expiry (db_after (get cfg rows now ns repo))"
proof -
  assume inv: "token_with_expiry rows"
  let ?obj = "get_or_create rows ns repo"
  from db_after_cases [of cfg rows now ns repo] show ?thesis
  proof
    assume "db_after (get cfg rows now ns repo) = rows"
    with inv show ?thesis by simp
  next
    assume "\<exists>t e. commit rows (filter_by_first rows ns repo)
                     (?obj\<lparr>token := Some t, expires_at := Some e\<rparr>)
                   = Inr (db_after (get cfg rows now ns repo))"
    then obtain t e where c: "commit rows (filter_by_first rows ns repo)
                     (?obj\<lparr>token := Some t, expires_at := Some e\<rparr>)
                   = Inr (db_after (get cfg rows now ns repo))" by blast
    have both: "(token (?obj\<lparr>token := Some t, expires_at := Some e\<rparr>) = None)
                  = (expires_at (?obj\<lparr>token := Some t, expires_at := Some e\<rparr>) = None)"
      by simp
    from commit_token_with_expiry [OF inv both c] show ?thesis .
  qed
qed

lemma get_pair_unique:
  assumes "pair_unique rows"
  shows "pair_unique (db_after (get cfg rows now ns repo))"
proof -
  let ?obj = "get_or_create rows ns repo"
  have key: "filter_by_first rows ns repo
               = filter_by_first rows (namespace (?obj\<lparr>token := Some t, expires_at := Some e\<rparr>))
                   (repository (?obj\<lparr>token := Some t, expires_at := Some e\<rparr>))" for t e
    using get_or_create_key [of rows ns repo] by simp
  from db_after_cases [of cfg rows now ns repo] show ?thesis
  proof
    assume "db_after (get cfg rows now ns repo) = rows"
    with assms show ?thesis by simp
  next
    assume "\<exists>t e. commit rows (filter_by_first rows ns repo)
                     (?obj\<lparr>token := Some t, expires_at := Some e\<rparr>)
                   = Inr (db_after (get cfg rows now ns repo))"
    then obtain t e where "commit rows (filter_by_first rows ns repo)
                     (?obj\<lparr>token := Some t, expires_at := Some e\<rparr>)
                   = Inr (db_after (get cfg rows now ns repo))" by blast
    from commit_pair_unique [OF assms key this] show ?thesis .
  qed
qed

lemma serve_invariant:
  assumes step: "\<And>rows q. P rows \<Longrightarrow> P (serve1 rows q)" and "P rows"
  shows "P (serve rows qs)"
  using assms(2) by (induction qs arbitrary: rows) (auto intro: step)

lemma pair_unique_rows_of: "pair_unique rows \<Longrightarrow> length (rows_of rows ns repo) \<le> 1"
proof (induction rows)
  case Nil
  then show ?case by (simp add: rows_of_def)
next
  case (Cons x xs)
  then have IH: "length (rows_of xs ns repo) \<le> 1" by (simp add: pair_unique_def)
  show ?case
  proof (cases "namespace x = ns \<and> repository x = repo")
    case True
    with Cons.prems have "\<forall>r\<in>set xs. \<not> (namespace r = ns \<and> repository r = repo)"
      by (auto simp: pair_unique_def image_iff)
    then have "rows_of xs ns repo = []" by (simp add: rows_of_def filter_empty_conv)
    with True show ?thesis by (simp add: rows_of_def)
  next
    case False
    with IH show ?thesis by (auto simp: rows_of_def)
  qed
qed

lemma distinct_tokens_inj:
  assumes "distinct (List.map_filter token rows)" "r1 \<in> set rows" "r2 \<in> set rows"
    and "token r1 = Some t" "token r2 = Some t"
  shows "r1 = r2"
  using assms
proof (induction rows)
  case Nil
  then show ?case by simp
next
  case (Cons x xs)
  have notin: "\<And>r. r \<in> set xs \<Longrightarrow> token r = Some t \<Longrightarrow> token x \<noteq> Some t"
    using Cons.prems(1) by (auto simp: in_map_filter split: option.splits)
  have dxs: "distinct (List.map_filter token xs)"
    using Cons.prems(1) by (auto split: option.splits)
  from Cons.prems(2,3) consider "r1 = x" "r2 = x" | "r1 = x" "r2 \<in> set xs"
    | "r1 \<in> set xs" "r2 = x" | "r1 \<in> set xs" "r2 \<in> set xs" by auto
  then show ?case
  proof cases
    case 1 then show ?thesis by simp
  next
    case 2 with notin Cons.prems(4,5) show ?thesis by blast
  next
    case 3 with notin Cons.prems(4,5) show ?thesis by blast
  next
    case 4 with Cons.IH dxs Cons.prems(4,5) show ?thesis by blast
  qed
qed

subsection \<open>Responses and what they leave in the table\<close>

lemma get_outcome_cases:
  assumes "outcome (get cfg rows now ns repo) = Inr resp"
  shows "(status resp = 400 \<and> body resp = error_body (not_installed_message ns repo)
          \<and> is_expired (get_or_create rows ns repo) now (token_renew_at cfg)
          \<and> not_installed (github_integration cfg) ns repo)
       \<or> (\<exists>obj t. resp = \<lparr>body = success_body ns repo obj, status = 200\<rparr> \<and> token obj = Some t)"
proof (cases "is_expired (get_or_create rows ns repo) now (token_renew_at cfg)")
  case False
  from not_expired_token [OF False] obtain t
    where "token (get_or_create rows ns repo) = Some t" by blast
  with assms get_not_expired [OF False] show ?thesis by auto
next
  case True
  obtain res calls where gt: "get_token (github_integration cfg) ns repo = (res, calls)"
    by (cases "get_token (github_integration cfg) ns repo")
  show ?thesis
  proof (cases res)
    case (Inl err)
    show ?thesis
    proof (cases err)
      case (AppNotInstalledError msg)
      with Inl gt get_token_raises
      have "msg = not_installed_message ns repo" "not_installed (github_integration cfg) ns repo"
        by blast+
      with get_expired_not_installed [OF True this(2)] assms True show ?thesis by auto
    next
      case (LibraryError e)
      with Inl gt True assms show ?thesis by (simp add: get_def del: is_expired.simps)
    next
      case IntegrityError
      with Inl gt True assms show ?thesis by (simp add: get_def del: is_expired.simps)
    qed
  next
    case (Inr te)
    obtain t e where "te = (t, e)" by (cases te)
    with Inr gt have "get_token (github_integration cfg) ns repo = (Inr (t, e), calls)" by simp
    from get_expired_issued [OF True this] assms show ?thesis
      by (auto simp: commit_and_return_def split: sum.splits)
  qed
qed

lemma find_pair_set_token:
  "(filter_by_first (map (set_token key obj) rows) ns repo = None)
     = (filter_by_first rows ns repo = None)"
  by (simp add: find_pair_None)

lemma commit_keeps_key:
  assumes "commit rows (filter_by_first rows ns repo) obj = Inr rows'"
    and "namespace obj = ns" "repository obj = repo"
  shows "filter_by_first rows' ns repo \<noteq> None"
proof (cases "filter_by_first rows ns repo")
  case None
  with assms(1) have "insert_row rows obj = Inr rows'" by (simp add: commit_def)
  from insert_row_eq [OF this] assms(2,3) show ?thesis
    by (auto simp: find_pair_None)
next
  case (Some old)
  then have old: "filter_by_first rows ns repo \<noteq> None" by simp
  show ?thesis
  proof (cases "obj = old")
    case True
    with Some assms(1) old show ?thesis by (simp add: commit_def)
  next
    case False
    with Some assms(1) have "update_row rows (row_id old) obj = Inr rows'"
      by (simp add: commit_def)
    from update_row_eq [OF this] old show ?thesis by (simp add: find_pair_set_token)
  qed
qed

lemma get_success_stored:
  assumes "outcome (get cfg rows now ns repo) = Inr resp" "status resp = 200"
  shows "filter_by_first (db_after (get cfg rows now ns repo)) ns repo \<noteq> None"
proof (cases "is_expired (get_or_create rows ns repo) now (token_renew_at cfg)")
  case False
  from not_expired_loaded [OF False] get_not_expired [OF False] show ?thesis by simp
next
  case True
  obtain res calls where gt: "get_token (github_integration cfg) ns repo = (res, calls)"
    by (cases "get_token (github_integration cfg) ns repo")
  show ?thesis
  proof (cases res)
    case (Inl err)
    with gt True assms show ?thesis
      by (cases err) (auto simp: get_def simp del: is_expired.simps)
  next
    case (Inr te)
    obtain t e where "te = (t, e)" by (cases te)
    with Inr gt have iss: "get_token (github_integration cfg) ns repo = (Inr (t, e), calls)"
      by simp
    let ?obj = "(get_or_create rows ns repo)\<lparr>token := Some t, expires_at := Some e\<rparr>"
    have key: "namespace ?obj = ns" "repository ?obj = repo"
      using get_or_create_key [of rows ns repo] by simp_all
    from get_expired_issued [OF True iss] assms(1)
    have "commit rows (filter_by_first rows ns repo) ?obj
            = Inr (db_after (get cfg rows now ns repo))"
      by (auto simp: commit_and_return_def split: sum.splits)
    from commit_keeps_key [OF this key] show ?thesis .
  qed
qed

lemma namespace_taken:
  assumes "schema_ok rows" "r \<in> set rows" "namespace r = ns" "repository r \<noteq> repo"
  shows "db_after (get cfg rows now ns repo) = rows"
proof -
  have none: "filter_by_first rows ns repo = None"
  proof (rule ccontr)
    assume "filter_by_first rows ns repo \<noteq> None"
    then obtain r' where "filter_by_first rows ns repo = Some r'" by auto
    from find_pair_Some [OF this] have r': "r' \<in> set rows" "namespace r' = ns" "repository r' = repo"
      by simp_all
    from assms(1) have "inj_on namespace (set rows)"
      by (simp add: schema_ok_def distinct_map)
    with r' assms(2,3) have "r' = r" by (auto dest: inj_onD)
    with r' assms(4) show False by simp
  qed
  have conflict: "insert_conflict rows obj" if "namespace obj = ns" for obj
    using assms(2,3) that by (auto simp: insert_conflict_def list_ex_iff)
  from db_after_cases [of cfg rows now ns repo] show ?thesis
  proof
    assume "\<exists>t e. commit rows (filter_by_first rows ns repo)
                     ((get_or_create rows ns repo)\<lparr>token := Some t, expires_at := Some e\<rparr>)
                   = Inr (db_after (get cfg rows now ns repo))"
    then obtain t e where "insert_row rows
        ((get_or_create rows ns repo)\<lparr>token := Some t, expires_at := Some e\<rparr>)
          = Inr (db_after (get cfg rows now ns repo))"
      using none by (auto simp: commit_def)
    moreover have "insert_conflict rows
        ((get_or_create rows ns repo)\<lparr>token := Some t, expires_at := Some e\<rparr>)"
      using get_or_create_key [of rows ns repo] by (intro conflict) simp
    ultimately show ?thesis by (simp add: insert_row_def)
  qed
qed


lemma lookup_made_expired:
  assumes "issuer_calls (get cfg rows now ns repo) \<noteq> []"
  shows "is_expired (get_or_create rows ns repo) now (token_renew_at cfg)"
proof (rule ccontr)
  assume "\<not> is_expired (get_or_create rows ns repo) now (token_renew_at cfg)"
  from get_not_expired [OF this] assms show False by simp
qed

lemma not_installed_keeps_table:
  assumes "not_installed (github_integration cfg) ns repo"
  shows "db_after (get cfg rows now ns repo) = rows
       \<and> (\<forall>i. GetAccessToken i \<notin> set (issuer_calls (get cfg rows now ns repo)))"
proof (cases "is_expired (get_or_create rows ns repo) now (token_renew_at cfg)")
  case True
  from get_expired_not_installed [OF True assms] show ?thesis by simp
next
  case False
  from get_not_expired [OF False] show ?thesis by simp
qed

subsection \<open>Unfolding the model on concrete requests\<close>


lemmas time_defs = at_seconds_def datetime_sub_def timedelta_of_microseconds_def
  total_seconds_floor_def

lemmas handler_defs = get_def get_or_create_def filter_by_first_def get_token_def
  commit_and_return_def commit_def insert_row_def insert_conflict_def next_id_def
  update_row_def update_conflict_def set_token_def success_body_def error_body_def
  not_installed_message_def not_installed_def

lemmas fixture_defs = scenario_config_def installed_issuer_def uninstalled_config_def
  uninstalled_issuer_def scenario_row_def scenario_request_def serve1_def

section \<open>The claims\<close>

subsection \<open>The renewal decision\<close>

text \<open>
  Claim C1 says that a record with token and expiry is expired exactly when the remaining
  lifetime in seconds is below the threshold, so in particular whenever the expiry lies
  in the past. \<^verbatim>\<open>is_expired\<close> compares \<^verbatim>\<open>.seconds\<close>, the seconds component of the
  normalised \<^verbatim>\<open>timedelta\<close>, which is never negative. A token that lapsed ten seconds ago
  has \<^verbatim>\<open>days = -1\<close> and \<^verbatim>\<open>seconds = 86390\<close>, and is reported as not expired under a
  threshold of 60; a token with one day and thirty seconds left is reported as expired.
  Inside the first day of remaining lifetime the code agrees with the claim
  (\<open>is_expired_within_day\<close>).
\<close>

theorem is_expired_misses_lapsed_token:
  "total_seconds_floor (at_seconds 0 3600) (at_seconds 0 3610) = - 10
   \<and> seconds (datetime_sub (at_seconds 0 3600) (at_seconds 0 3610)) = 86390
   \<and> \<not> is_expired (scenario_row 0) (at_seconds 0 3610) 60
   \<and> total_seconds_floor (at_seconds 0 3600) (at_seconds 0 (- 82830)) = 86430
   \<and> is_expired (scenario_row 0) (at_seconds 0 (- 82830)) 60"
  by (simp add: time_defs scenario_row_def)

text \<open>
  Claim C5: a record whose expiry is absent, or whose token is absent, is expired for every
  clock reading and every threshold. The checks run in the order of the source: expiry,
  then token; the comparison of \<^verbatim>\<open>.seconds\<close> with the threshold decides only when both
  fields are present.
\<close>

theorem is_expired_absent_fields:
  "(expires_at r = None \<or> token r = None \<longrightarrow> is_expired r now thr)
   \<and> (\<forall>e t. expires_at r = Some e \<and> token r = Some t \<longrightarrow>
          is_expired r now thr = (seconds (datetime_sub e now) < thr))"
  by (auto split: option.splits)

theorem is_expired_absent_fields_witness:
  "is_expired \<lparr>row_id = Some 1, namespace = ''org'', repository = ''repo'',
               token = Some ''abc'', expires_at = None\<rparr> 0 60
   \<and> is_expired \<lparr>row_id = Some 1, namespace = ''org'', repository = ''repo'',
               token = None, expires_at = Some 7200000000\<rparr> 0 60
   \<and> \<not> is_expired (scenario_row 0) 0 60"
  using is_expired_absent_fields
          [of "\<lparr>row_id = Some 1, namespace = ''org'', repository = ''repo'',
               token = Some ''abc'', expires_at = None\<rparr>" 0 60]
        is_expired_absent_fields
          [of "\<lparr>row_id = Some 1, namespace = ''org'', repository = ''repo'',
               token = None, expires_at = Some 7200000000\<rparr>" 0 60]
        is_expired_absent_fields [of "scenario_row 0" 0 60]
  by (simp add: scenario_row_def time_defs del: is_expired.simps)

subsection \<open>An integration that is not installed\<close>

text \<open>
  Claim C3: for a key whose installation lookup reports no installation, the request
  leaves the table as it was (a new record is not stored, a stored one keeps its token
  and expiry) and never asks for an access token; and whenever the lookup is made, the
  request ends with the error result, after that one call of the integration.
\<close>

theorem not_installed_is_error:
  assumes "not_installed (github_integration cfg) ns repo"
  shows "db_after (get cfg rows now ns repo) = rows
       \<and> (\<forall>i. GetAccessToken i \<notin> set (issuer_calls (get cfg rows now ns repo)))
       \<and> (GetInstallation ns repo \<in> set (issuer_calls (get cfg rows now ns repo)) \<longrightarrow>
            outcome (get cfg rows now ns repo)
              = Inr \<lparr>body = [(''error'', Some (''Failed to retrieve a token: ''
                                               @ ''App is not installed on '' @ ns @ ''/'' @ repo))],
                     status = 400\<rparr>
          \<and> issuer_calls (get cfg rows now ns repo) = [GetInstallation ns repo])"
proof -
  have "outcome (get cfg rows now ns repo)
              = Inr \<lparr>body = [(''error'', Some (''Failed to retrieve a token: ''
                                               @ ''App is not installed on '' @ ns @ ''/'' @ repo))],
                     status = 400\<rparr>
          \<and> issuer_calls (get cfg rows now ns repo) = [GetInstallation ns repo]"
    if made: "GetInstallation ns repo \<in> set (issuer_calls (get cfg rows now ns repo))"
  proof -
    from made have "issuer_calls (get cfg rows now ns repo) \<noteq> []" by auto
    then have "is_expired (get_or_create rows ns repo) now (token_renew_at cfg)"
      by (rule lookup_made_expired)
    from get_expired_not_installed [OF this assms] show ?thesis
      by (simp add: error_body_def not_installed_message_def)
  qed
  with not_installed_keeps_table [OF assms] show ?thesis by blast
qed

theorem not_installed_is_error_witness:
  "not_installed (github_integration uninstalled_config) ''org'' ''repo''
   \<and> GetInstallation ''org'' ''repo''
       \<in> set (issuer_calls
                (get uninstalled_config [scenario_row 0] (at_seconds 0 3550) ''org'' ''repo''))
   \<and> outcome (get uninstalled_config [scenario_row 0] (at_seconds 0 3550) ''org'' ''repo'')
       = Inr \<lparr>body = [(''error'',
                       Some ''Failed to retrieve a token: App is not installed on org/repo'')],
              status = 400\<rparr>
   \<and> db_after (get uninstalled_config [scenario_row 0] (at_seconds 0 3550) ''org'' ''repo'')
       = [scenario_row 0]
   \<and> (\<forall>i. GetAccessToken i
          \<notin> set (issuer_calls
                 (get uninstalled_config [scenario_row 0] (at_seconds 0 3550) ''org'' ''repo'')))"
proof -
  have h1: "not_installed (github_integration uninstalled_config) ''org'' ''repo''"
    by (simp add: not_installed_def fixture_defs)
  have h2: "GetInstallation ''org'' ''repo''
       \<in> set (issuer_calls
                (get uninstalled_config [scenario_row 0] (at_seconds 0 3550) ''org'' ''repo''))"
    by (simp add: handler_defs fixture_defs time_defs)
  from not_installed_is_error [OF h1, of "[scenario_row 0]" "at_seconds 0 3550"] h1 h2
  show ?thesis by simp
qed

subsection \<open>The scenario of three requests\<close>

text \<open>
  Claim C4, amended: from an empty table at time \<open>T\<close>, with an issuer that answers
  \<^verbatim>\<open>"abc"\<close> expiring at \<open>T + 3600\<close> and a threshold of 60, the first request returns
  namespace \<^verbatim>\<open>"org"\<close>, repository \<^verbatim>\<open>"repo"\<close> and token \<^verbatim>\<open>"abc"\<close>; a request at \<open>T + 10\<close>
  returns the same token and makes no issuer call; a request at \<open>T + 3550\<close>, when 50
  seconds of lifetime are left, asks the issuer again.
\<close>

theorem scenario_three_requests:
  "outcome (get (scenario_config T) [] T ''org'' ''repo'')
     = Inr \<lparr>body = [(''repository'', Some ''repo''), (''namespace'', Some ''org''),
                    (''access_token'', Some ''abc'')],
            status = 200\<rparr>
   \<and> issuer_calls (get (scenario_config T) [] T ''org'' ''repo'')
     = [GetInstallation ''org'' ''repo'', GetAccessToken 1]
   \<and> db_after (get (scenario_config T) [] T ''org'' ''repo'') = [scenario_row T]
   \<and> outcome (get (scenario_config T) [scenario_row T] (at_seconds T 10) ''org'' ''repo'')
     = Inr \<lparr>body = [(''repository'', Some ''repo''), (''namespace'', Some ''org''),
                    (''access_token'', Some ''abc'')],
            status = 200\<rparr>
   \<and> issuer_calls (get (scenario_config T) [scenario_row T] (at_seconds T 10) ''org'' ''repo'')
     = []
   \<and> db_after (get (scenario_config T) [scenario_row T] (at_seconds T 10) ''org'' ''repo'')
     = [scenario_row T]
   \<and> seconds (datetime_sub (at_seconds T 3600) (at_seconds T 3550)) = 50
   \<and> issuer_calls (get (scenario_config T) [scenario_row T] (at_seconds T 3550) ''org'' ''repo'')
     = [GetInstallation ''org'' ''repo'', GetAccessToken 1]"
  by (simp add: handler_defs fixture_defs time_defs)

theorem scenario_three_requests_witness:
  "issuer_calls (get (scenario_config 0) [] 0 ''org'' ''repo'')
     = [GetInstallation ''org'' ''repo'', GetAccessToken 1]
   \<and> db_after (get (scenario_config 0) [] 0 ''org'' ''repo'') = [scenario_row 0]
   \<and> issuer_calls (get (scenario_config 0) [scenario_row 0] (at_seconds 0 10) ''org'' ''repo'')
     = []
   \<and> issuer_calls (get (scenario_config 0) [scenario_row 0] (at_seconds 0 3550) ''org'' ''repo'')
     = [GetInstallation ''org'' ''repo'', GetAccessToken 1]"
  using scenario_three_requests [of 0] by simp

text \<open>
  At \<open>T + 3550\<close> the token has 50 seconds left, not 60; with exactly 60 seconds left, at
  \<open>T + 3540\<close>, the request is served from the table and no issuer call is made.
\<close>

theorem scenario_threshold_boundary:
  "seconds (datetime_sub (at_seconds 0 3600) (at_seconds 0 3550)) = 50
   \<and> seconds (datetime_sub (at_seconds 0 3600) (at_seconds 0 3540)) = 60
   \<and> issuer_calls (get (scenario_config 0) [scenario_row 0] (at_seconds 0 3540) ''org'' ''repo'')
       = []"
  by (simp add: handler_defs fixture_defs time_defs)

subsection \<open>One record per key\<close>

text \<open>
  Claim C6: the table holds at most one row per (namespace, repository). A request keeps
  this; after two requests for the same key there is at most one row of the key; when the
  lookup finds a row, the lookup-or-insert step returns that stored row and creates
  nothing; after a request that returned 200 the row of the key is stored, so the next
  lookup returns it; and every table reached from the empty one has the property.
\<close>

theorem one_record_per_key:
  assumes "pair_unique rows"
  shows "pair_unique (db_after (get cfg rows now ns repo))
       \<and> length (rows_of (db_after (get cfg' (db_after (get cfg rows now ns repo)) now' ns repo))
                   ns repo) \<le> 1
       \<and> (\<forall>r. filter_by_first rows ns repo = Some r \<longrightarrow>
              get_or_create rows ns repo = r \<and> r \<in> set rows)
       \<and> (\<forall>resp. outcome (get cfg rows now ns repo) = Inr resp \<and> status resp = 200 \<longrightarrow>
              get_or_create (db_after (get cfg rows now ns repo)) ns repo
                \<in> set (db_after (get cfg rows now ns repo)))
       \<and> pair_unique (serve [] qs)"
proof -
  have one: "pair_unique (db_after (get cfg rows now ns repo))"
    using assms by (rule get_pair_unique)
  then have "pair_unique (db_after (get cfg' (db_after (get cfg rows now ns repo)) now' ns repo))"
    by (rule get_pair_unique)
  then have two: "length (rows_of
        (db_after (get cfg' (db_after (get cfg rows now ns repo)) now' ns repo)) ns repo) \<le> 1"
    by (rule pair_unique_rows_of)
  have found: "get_or_create rs ns repo = r \<and> r \<in> set rs"
    if "filter_by_first rs ns repo = Some r" for rs r
    using that find_pair_Some [OF that] by (simp add: get_or_create_loaded)
  have again: "get_or_create (db_after (get cfg rows now ns repo)) ns repo
                 \<in> set (db_after (get cfg rows now ns repo))"
    if "outcome (get cfg rows now ns repo) = Inr resp" "status resp = 200" for resp
  proof -
    from get_success_stored [OF that] obtain r
      where "filter_by_first (db_after (get cfg rows now ns repo)) ns repo = Some r" by auto
    from found [OF this] show ?thesis by simp
  qed
  have "pair_unique []" by (simp add: pair_unique_def)
  then have "pair_unique (serve [] qs)"
    by (rule serve_invariant [rotated]) (simp add: serve1_def get_pair_unique)
  with one two found again show ?thesis by blast
qed

theorem one_record_per_key_witness:
  "pair_unique [scenario_row 0]
   \<and> length (rows_of (db_after (get (scenario_config 0)
                (db_after (get (scenario_config 0) [scenario_row 0] (at_seconds 0 3550)
                   ''org'' ''repo''))
                (at_seconds 0 3700) ''org'' ''repo'')) ''org'' ''repo'') \<le> 1
   \<and> get_or_create [scenario_row 0] ''org'' ''repo'' = scenario_row 0
   \<and> pair_unique (serve [] [scenario_request 0, scenario_request 0])"
proof -
  have h: "pair_unique [scenario_row 0]" by (simp add: pair_unique_def)
  have f: "filter_by_first [scenario_row 0] ''org'' ''repo'' = Some (scenario_row 0)"
    by (simp add: filter_by_first_def scenario_row_def)
  from one_record_per_key [OF h, of "scenario_config 0" "at_seconds 0 3550" "''org''" "''repo''"
         "scenario_config 0" "at_seconds 0 3700" "[scenario_request 0, scenario_request 0]"] h f
  show ?thesis by blast
qed

subsection \<open>The HTTP responses\<close>



text \<open>
  Claim C10: a response with status 200 carries an \<^verbatim>\<open>access_token\<close> that is not
  \<^verbatim>\<open>null\<close>.
\<close>

theorem success_has_token:
  assumes "outcome (get cfg rows now ns repo) = Inr resp" "status resp = 200"
  shows "\<exists>t. map_of (body resp) ''access_token'' = Some (Some t)"
proof -
  from get_outcome_cases [OF assms(1)] assms(2)
  obtain obj t where "resp = \<lparr>body = success_body ns repo obj, status = 200\<rparr>" "token obj = Some t"
    by auto
  then show ?thesis by (simp add: success_body_def)
qed

theorem success_has_token_witness:
  "outcome (get (scenario_config 0) [scenario_row 0] (at_seconds 0 3550) ''org'' ''repo'')
     = Inr \<lparr>body = [(''repository'', Some ''repo''), (''namespace'', Some ''org''),
                    (''access_token'', Some ''abc'')],
            status = 200\<rparr>
   \<and> (\<exists>t. map_of [(''repository'', Some ''repo''), (''namespace'', Some ''org''),
                     (''access_token'', Some ''abc'')] ''access_token'' = Some (Some t))"
proof -
  let ?resp = "\<lparr>body = [(''repository'', Some ''repo''), (''namespace'', Some ''org''),
                        (''access_token'', Some ''abc'')],
                status = 200\<rparr>"
  have h1: "outcome (get (scenario_config 0) [scenario_row 0] (at_seconds 0 3550) ''org'' ''repo'')
              = Inr ?resp"
    by (simp add: handler_defs fixture_defs time_defs)
  have h2: "status ?resp = 200" by simp
  from success_has_token [OF h1 h2] h1 show ?thesis by simp
qed

subsection \<open>Invariants of the stored rows\<close>

text \<open>
  Claim C8: a request keeps the property that every stored row has its token and its
  expiry both present or both absent, and every table reached from the empty one has it.
  A renewal assigns both fields from the issuer's answer before the commit.
\<close>

theorem token_never_without_expiry:
  "(token_with_expiry rows \<longrightarrow> token_with_expiry (db_after (get cfg rows now ns repo)))
   \<and> token_with_expiry (serve [] qs)"
proof -
  have "token_with_expiry []" by (simp add: token_with_expiry_def)
  then have "token_with_expiry (serve [] qs)"
    by (rule serve_invariant [rotated]) (simp add: serve1_def get_token_with_expiry)
  then show ?thesis by (simp add: get_token_with_expiry)
qed

theorem token_never_without_expiry_witness:
  "token_with_expiry [scenario_row 0]
   \<and> token_with_expiry
        (db_after (get (scenario_config 7200) [scenario_row 0] (at_seconds 0 3550) ''org'' ''repo''))
   \<and> token_with_expiry (serve [] [scenario_request 0])"
proof -
  have h: "token_with_expiry [scenario_row 0]"
    by (simp add: token_with_expiry_def scenario_row_def)
  from token_never_without_expiry [of "[scenario_row 0]" "scenario_config 7200"
         "at_seconds 0 3550" "''org''" "''repo''" "[scenario_request 0]"] h
  show ?thesis by blast
qed

text \<open>
  Claim C9: the columns \<^verbatim>\<open>namespace\<close>, \<^verbatim>\<open>repository\<close> and \<^verbatim>\<open>token\<close> are each unique
  on their own. A request keeps a table that satisfies the schema; in such a table two
  different rows differ in namespace, in repository, and in token unless it is
  \<open>NULL\<close>; a request for another repository of a stored namespace stores nothing; and
  every table reached from the empty one satisfies the schema.
\<close>

theorem unique_columns:
  assumes "schema_ok rows"
  shows "schema_ok (db_after (get cfg rows now ns repo))
       \<and> (\<forall>r1\<in>set rows. \<forall>r2\<in>set rows. r1 \<noteq> r2 \<longrightarrow>
              namespace r1 \<noteq> namespace r2
            \<and> repository r1 \<noteq> repository r2
            \<and> (token r1 \<noteq> None \<longrightarrow> token r1 \<noteq> token r2))
       \<and> (\<forall>r\<in>set rows. namespace r = ns \<and> repository r \<noteq> repo \<longrightarrow>
              db_after (get cfg rows now ns repo) = rows)
       \<and> schema_ok (serve [] qs)"
proof -
  have keep: "schema_ok (db_after (get cfg rows now ns repo))"
    using assms by (rule get_schema)
  from assms have inj: "inj_on namespace (set rows)" "inj_on repository (set rows)"
    and dt: "distinct (List.map_filter token rows)"
    by (simp_all add: schema_ok_def distinct_map)
  have apart: "namespace r1 \<noteq> namespace r2 \<and> repository r1 \<noteq> repository r2
               \<and> (token r1 \<noteq> None \<longrightarrow> token r1 \<noteq> token r2)"
    if "r1 \<in> set rows" "r2 \<in> set rows" "r1 \<noteq> r2" for r1 r2
  proof -
    have "namespace r1 \<noteq> namespace r2" using inj(1) that by (auto dest: inj_onD)
    moreover have "repository r1 \<noteq> repository r2" using inj(2) that by (auto dest: inj_onD)
    moreover have "token r1 \<noteq> token r2" if tk: "token r1 \<noteq> None"
    proof
      assume eq: "token r1 = token r2"
      from tk obtain t where t1: "token r1 = Some t" by auto
      with eq have t2: "token r2 = Some t" by simp
      from distinct_tokens_inj [OF dt \<open>r1 \<in> set rows\<close> \<open>r2 \<in> set rows\<close> t1 t2]
      have "r1 = r2" .
      with \<open>r1 \<noteq> r2\<close> show False ..
    qed
    ultimately show ?thesis by blast
  qed
  have taken: "db_after (get cfg rows now ns repo) = rows"
    if "r \<in> set rows" "namespace r = ns" "repository r \<noteq> repo" for r
    using namespace_taken [OF assms that] .
  have "schema_ok []" by (simp add: schema_ok_def pk_ok_def)
  then have "schema_ok (serve [] qs)"
    by (rule serve_invariant [rotated]) (simp add: serve1_def get_schema)
  with keep apart taken show ?thesis by blast
qed

theorem unique_columns_witness:
  "schema_ok [scenario_row 0]
   \<and> schema_ok (db_after (get (scenario_config 0) [scenario_row 0] 0 ''org'' ''other''))
   \<and> db_after (get (scenario_config 0) [scenario_row 0] 0 ''org'' ''other'') = [scenario_row 0]
   \<and> schema_ok (serve [] [scenario_request 0])"
proof -
  have h: "schema_ok [scenario_row 0]"
    by (simp add: schema_ok_def pk_ok_def scenario_row_def)
  have r: "scenario_row 0 \<in> set [scenario_row 0]" by simp
  have k: "namespace (scenario_row 0) = ''org'' \<and> repository (scenario_row 0) \<noteq> ''other''"
    by (simp add: scenario_row_def)
  from unique_columns [OF h, of "scenario_config 0" 0 "''org''" "''other''"
         "[scenario_request 0]"] h r k
  show ?thesis by blast
qed

end
